theory Spec2Isabelle
  imports Complex_Main "HOL-Library.Char_ord" "HOL-Library.List_Lexorder"
begin

section \<open>Python values\<close>

text \<open>
  The gene classes of \<^verbatim>\<open>neat/genes.py\<close> are dynamically typed: a key or an attribute
  value can be any Python object. The values that occur are modelled by one datatype.
  A Python \<^verbatim>\<open>float\<close> is idealised as a real number (no rounding, no NaN, no infinity);
  a reference \<open>PRef a\<close> points to an attribute value object that owns mutable state
  (see \<open>vobj\<close> below).
\<close>

type_synonym addr = nat

datatype pyval =
    PNone
  | PBool bool
  | PInt int
  | PFloat real
  | PStr string
  | PTuple "pyval list"
  | PRef addr

datatype pytype = TNone | TBool | TInt | TFloat | TStr | TTuple | TInstance

fun py_type :: "pyval \<Rightarrow> pytype" where
  "py_type PNone = TNone"
| "py_type (PBool b) = TBool"
| "py_type (PInt i) = TInt"
| "py_type (PFloat r) = TFloat"
| "py_type (PStr s) = TStr"
| "py_type (PTuple vs) = TTuple"
| "py_type (PRef a) = TInstance"

text \<open>\<^verbatim>\<open>isinstance(v, T)\<close>: the type of \<open>v\<close> is \<open>T\<close> or a subclass of it. Among the
  builtin types above the only subclass relation is \<^verbatim>\<open>bool\<close> below \<^verbatim>\<open>int\<close>.\<close>

definition isinstance :: "pyval \<Rightarrow> pytype \<Rightarrow> bool" where
  "isinstance v T = (py_type v = T \<or> (py_type v = TBool \<and> T = TInt))"

text \<open>The numeric value of a number (\<^verbatim>\<open>bool\<close>, \<^verbatim>\<open>int\<close>, \<^verbatim>\<open>float\<close>); no other value
  takes part in arithmetic.\<close>

fun num_of :: "pyval \<Rightarrow> real option" where
  "num_of (PBool b) = Some (if b then 1 else 0)"
| "num_of (PInt i) = Some (real_of_int i)"
| "num_of (PFloat r) = Some r"
| "num_of v = None"

text \<open>The errors the gene classes raise. Assertions are taken to be enabled, as they
  are unless the interpreter is asked to strip them; the four \<^verbatim>\<open>assert\<close> statements of
  the file are told apart by name, the text of their messages is not modelled.\<close>

datatype assertion =
    NodeKeyNotInt          \<comment> \<open>\<^verbatim>\<open>DefaultNodeGene key must be an int\<close>\<close>
  | ConnectionKeyNotTuple  \<comment> \<open>\<^verbatim>\<open>DefaultConnectionGene key must be a tuple\<close>\<close>
  | CannotCompareKeys      \<comment> \<open>\<^verbatim>\<open>Cannot compare keys\<close>, in \<^verbatim>\<open>__lt__\<close>\<close>
  | KeysDiffer             \<comment> \<open>\<^verbatim>\<open>assert self.key == gene2.key\<close>, in \<^verbatim>\<open>crossover\<close>\<close>

datatype error =
    AssertionError assertion
  | AttributeError string
  | TypeError

text \<open>\<^verbatim>\<open>a == b\<close>: numbers compare by value across \<^verbatim>\<open>bool\<close>, \<^verbatim>\<open>int\<close> and \<^verbatim>\<open>float\<close>,
  strings by content, tuples by length and componentwise, objects by identity; values of
  unrelated types are unequal.\<close>

fun py_eq :: "pyval \<Rightarrow> pyval \<Rightarrow> bool" and py_eq_list :: "pyval list \<Rightarrow> pyval list \<Rightarrow> bool" where
  "py_eq (PTuple xs) (PTuple ys) = py_eq_list xs ys"
| "py_eq (PStr a) (PStr b) = (a = b)"
| "py_eq PNone PNone = True"
| "py_eq (PRef a) (PRef b) = (a = b)"
| "py_eq x y = (case num_of x of None \<Rightarrow> False
                | Some a \<Rightarrow> (case num_of y of None \<Rightarrow> False | Some b \<Rightarrow> a = b))"
| "py_eq_list [] [] = True"
| "py_eq_list (x # xs) (y # ys) = (py_eq x y \<and> py_eq_list xs ys)"
| "py_eq_list [] (y # ys) = False"
| "py_eq_list (x # xs) [] = False"

text \<open>\<^verbatim>\<open>a < b\<close>: numbers by value, strings lexicographically, tuples by the first
  position where the components differ (or by length when there is none); every other
  combination raises \<^verbatim>\<open>TypeError\<close>.\<close>

fun py_lt :: "pyval \<Rightarrow> pyval \<Rightarrow> error + bool"
  and py_lt_list :: "pyval list \<Rightarrow> pyval list \<Rightarrow> error + bool" where
  "py_lt (PTuple xs) (PTuple ys) = py_lt_list xs ys"
| "py_lt (PStr a) (PStr b) = Inr (a < b)"
| "py_lt x y = (case num_of x of None \<Rightarrow> Inl TypeError
                | Some a \<Rightarrow> (case num_of y of None \<Rightarrow> Inl TypeError | Some b \<Rightarrow> Inr (a < b)))"
| "py_lt_list [] [] = Inr False"
| "py_lt_list [] (y # ys) = Inr True"
| "py_lt_list (x # xs) [] = Inr False"
| "py_lt_list (x # xs) (y # ys) = (if py_eq x y then py_lt_list xs ys else py_lt x y)"

section \<open>Objects and the store\<close>

text \<open>
  Modelled from the spec: the class of an attribute value that owns mutable internal
  state is not part of \<^verbatim>\<open>neat/genes.py\<close>. Such an object is represented by its
  internal state \<open>internal\<close> and by whether its class defines a \<^verbatim>\<open>copy\<close> and a
  \<^verbatim>\<open>distance\<close> operation, which is what \<^verbatim>\<open>hasattr\<close> probes.
\<close>

record 's vobj =
  has_copy :: bool
  has_distance :: bool
  internal :: 's

datatype gene_class = DefaultNodeGene | DefaultConnectionGene

text \<open>A gene object: its class, \<^verbatim>\<open>self.key\<close>, and the attribute values set on the
  instance so far (none after construction).\<close>

record gene =
  gclass :: gene_class
  key :: pyval
  attrs :: "string \<rightharpoonup> pyval"

text \<open>The store: gene objects and attribute value objects, each addressed by its
  position; a new object is appended.\<close>

record 's state =
  genes :: "gene list"
  objs :: "'s vobj list"

text \<open>The attribute descriptors (\<^verbatim>\<open>neat.attributes\<close>); the gene operations use their
  \<^verbatim>\<open>name\<close> only.\<close>

datatype attribute =
    FloatAttribute string
  | BoolAttribute string
  | FuncAttribute string string

fun name :: "attribute \<Rightarrow> string" where
  "name (FloatAttribute n) = n"
| "name (BoolAttribute n) = n"
| "name (FuncAttribute n options) = n"

text \<open>\<^verbatim>\<open>_gene_attributes\<close> of the two classes.\<close>

fun gene_attributes :: "gene_class \<Rightarrow> attribute list" where
  "gene_attributes DefaultNodeGene =
     [FloatAttribute ''bias'', FloatAttribute ''response'',
      FuncAttribute ''activation'' ''sigmoid'', FuncAttribute ''aggregation'' ''sum'']"
| "gene_attributes DefaultConnectionGene =
     [FloatAttribute ''weight'', BoolAttribute ''enabled'']"

definition getattr :: "'s state \<Rightarrow> addr \<Rightarrow> string \<Rightarrow> error + pyval" where
  "getattr s g n = (case attrs (genes s ! g) n of
                      None \<Rightarrow> Inl (AttributeError n)
                    | Some v \<Rightarrow> Inr v)"

definition setattr :: "'s state \<Rightarrow> addr \<Rightarrow> string \<Rightarrow> pyval \<Rightarrow> 's state" where
  "setattr s g n v =
     s\<lparr>genes := (genes s)[g := (genes s ! g)\<lparr>attrs := (attrs (genes s ! g))(n \<mapsto> v)\<rparr>]\<rparr>"

text \<open>\<^verbatim>\<open>hasattr(value, 'copy')\<close> and \<^verbatim>\<open>hasattr(value, 'distance')\<close>: numbers, strings,
  tuples and \<^verbatim>\<open>None\<close> have neither attribute.\<close>

fun hasattr_copy :: "'s state \<Rightarrow> pyval \<Rightarrow> bool" where
  "hasattr_copy s (PRef a) = (a < length (objs s) \<and> has_copy (objs s ! a))"
| "hasattr_copy s v = False"


text \<open>
  Modelled from the spec: \<^verbatim>\<open>value.copy()\<close> of an attribute value object, whose class is
  not part of \<^verbatim>\<open>neat/genes.py\<close>. The spec has the value "independently cloned": a new
  object with the same internal state, the original untouched.
\<close>

fun value_copy :: "'s state \<Rightarrow> pyval \<Rightarrow> pyval \<times> 's state" where
  "value_copy s (PRef a) = (PRef (length (objs s)), s\<lparr>objs := objs s @ [objs s ! a]\<rparr>)"
| "value_copy s v = (v, s)"

section \<open>Construction\<close>

text \<open>\<^verbatim>\<open>BaseGene.__init__\<close>: a new gene object holding the key and no attribute value.\<close>

definition BaseGene_init :: "gene_class \<Rightarrow> pyval \<Rightarrow> 's state \<Rightarrow> addr \<times> 's state" where
  "BaseGene_init c k s =
     (length (genes s), s\<lparr>genes := genes s @ [\<lparr>gclass = c, key = k, attrs = Map.empty\<rparr>]\<rparr>)"

text \<open>\<^verbatim>\<open>DefaultNodeGene.__init__\<close> and \<^verbatim>\<open>DefaultConnectionGene.__init__\<close>, selected by
  the class that is instantiated.\<close>

fun new_gene :: "gene_class \<Rightarrow> pyval \<Rightarrow> 's state \<Rightarrow> error + (addr \<times> 's state)" where
  "new_gene DefaultNodeGene k s =
     (if isinstance k TInt then Inr (BaseGene_init DefaultNodeGene k s)
      else Inl (AssertionError NodeKeyNotInt))"
| "new_gene DefaultConnectionGene k s =
     (if isinstance k TTuple then Inr (BaseGene_init DefaultConnectionGene k s)
      else Inl (AssertionError ConnectionKeyNotTuple))"

section \<open>Ordering\<close>


section \<open>Copy, crossover and mutation\<close>

text \<open>The statement that \<^verbatim>\<open>copy\<close> and both branches of \<^verbatim>\<open>crossover\<close> share:
  \<^verbatim>\<open>if hasattr(value, 'copy'): setattr(new_gene, a.name, value.copy())\<close>
  \<^verbatim>\<open>else: setattr(new_gene, a.name, value)\<close>.\<close>

definition assign_copy :: "'s state \<Rightarrow> addr \<Rightarrow> string \<Rightarrow> pyval \<Rightarrow> 's state" where
  "assign_copy s ng n v =
     (if hasattr_copy s v
      then (case value_copy s v of (v', s') \<Rightarrow> setattr s' ng n v')
      else setattr s ng n v)"



text \<open>The random source: \<^verbatim>\<open>random()\<close> returns the next draw of a stream that the
  caller does not control.\<close>

type_synonym rng = "nat \<Rightarrow> real"

definition random :: "rng \<Rightarrow> real \<times> rng" where
  "random r = (r 0, \<lambda>n. r (Suc n))"

text \<open>\<^verbatim>\<open>BaseGene.crossover\<close>: one draw per attribute.\<close>

fun crossover_loop ::
  "attribute list \<Rightarrow> addr \<Rightarrow> addr \<Rightarrow> addr \<Rightarrow> rng \<Rightarrow> 's state \<Rightarrow> error + (rng \<times> 's state)" where
  "crossover_loop [] self gene2 ng r s = Inr (r, s)"
| "crossover_loop (a # as) self gene2 ng r s =
     (case random r of (x, r') \<Rightarrow>
        if x > 0.5
        then (case getattr s self (name a) of
                Inl e \<Rightarrow> Inl e
              | Inr v \<Rightarrow> crossover_loop as self gene2 ng r' (assign_copy s ng (name a) v))
        else (case getattr s gene2 (name a) of
                Inl e \<Rightarrow> Inl e
              | Inr v \<Rightarrow> crossover_loop as self gene2 ng r' (assign_copy s ng (name a) v)))"

definition crossover ::
  "'s state \<Rightarrow> rng \<Rightarrow> addr \<Rightarrow> addr \<Rightarrow> error + (addr \<times> rng \<times> 's state)" where
  "crossover s r self gene2 =
     (if \<not> py_eq (key (genes s ! self)) (key (genes s ! gene2))
      then Inl (AssertionError KeysDiffer)
      else (case new_gene (gclass (genes s ! self)) (key (genes s ! self)) s of
              Inl e \<Rightarrow> Inl e
            | Inr (ng, s1) \<Rightarrow>
                (case crossover_loop (gene_attributes (gclass (genes s ! self)))
                        self gene2 ng r s1 of
                   Inl e \<Rightarrow> Inl e
                 | Inr (r', s2) \<Rightarrow> Inr (ng, r', s2))))"




section \<open>Distance\<close>






section \<open>Notions used to state the properties\<close>

text \<open>The spec's shape of a connection gene key: a pair of integers.\<close>

fun pair_of_ints :: "pyval \<Rightarrow> bool" where
  "pair_of_ints (PTuple [a, b]) = (isinstance a TInt \<and> isinstance b TInt)"
| "pair_of_ints v = False"

text \<open>A value that exists in the store: a reference points to an allocated object.\<close>

fun live :: "'s state \<Rightarrow> pyval \<Rightarrow> bool" where
  "live s (PRef a) = (a < length (objs s))"
| "live s v = True"

text \<open>The gene at \<open>g\<close> exists and every attribute its class declares has been set.\<close>

definition attributes_set :: "'s state \<Rightarrow> addr \<Rightarrow> bool" where
  "attributes_set s g =
     (g < length (genes s) \<and>
      list_all (\<lambda>a. case attrs (genes s ! g) (name a) of None \<Rightarrow> False | Some v \<Rightarrow> live s v)
        (gene_attributes (gclass (genes s ! g))))"

text \<open>The key of the gene has the type its class asserts at construction.\<close>

definition key_valid :: "gene \<Rightarrow> bool" where
  "key_valid g = (case gclass g of
                    DefaultNodeGene \<Rightarrow> isinstance (key g) TInt
                  | DefaultConnectionGene \<Rightarrow> isinstance (key g) TTuple)"


text \<open>What an attribute value is, looked through the store: a plain value, or the
  object a reference points to.\<close>

datatype 's snapshot = Plain pyval | Instance "'s vobj"

fun snapshot_of :: "'s state \<Rightarrow> pyval \<Rightarrow> 's snapshot" where
  "snapshot_of s (PRef a) = Instance (objs s ! a)"
| "snapshot_of s v = Plain v"

definition view :: "'s state \<Rightarrow> addr \<Rightarrow> string \<Rightarrow> 's snapshot option" where
  "view s g n = map_option (snapshot_of s) (attrs (genes s ! g) n)"

text \<open>The value that \<open>assign_copy\<close> stores for the value \<open>v\<close>: a reference to the
  new object when \<open>v\<close> is cloned, \<open>v\<close> itself otherwise.\<close>

definition stored_value :: "'s state \<Rightarrow> pyval \<Rightarrow> pyval" where
  "stored_value s v = (if hasattr_copy s v then PRef (length (objs s)) else v)"

text \<open>The value \<open>v'\<close> in the store \<open>s'\<close> is what a new gene inherits for the value
  \<open>w\<close> of the store \<open>s\<close>: it looks the same, and it is a reference to an object
  allocated after \<open>s\<close> when \<open>w\<close> is cloned, \<open>w\<close> itself otherwise.\<close>

definition inherited :: "'s state \<Rightarrow> 's state \<Rightarrow> pyval \<Rightarrow> pyval \<Rightarrow> bool" where
  "inherited s s' w v' =
     (live s' v' \<and> snapshot_of s' v' = snapshot_of s w \<and>
      (if hasattr_copy s w then (case v' of PRef k \<Rightarrow> length (objs s) \<le> k | _ \<Rightarrow> False)
       else v' = w))"

text \<open>The attribute \<open>n\<close> of the gene at \<open>g\<close> is set, and set to a number.\<close>

definition has_attr :: "'s state \<Rightarrow> addr \<Rightarrow> string \<Rightarrow> bool" where
  "has_attr s g n = (attrs (genes s ! g) n \<noteq> None)"



section \<open>Scenarios\<close>

text \<open>The store before any gene exists.\<close>

definition empty_state :: "nat state" where
  "empty_state = \<lparr>genes = [], objs = []\<rparr>"

text \<open>Two connection genes with key \<open>(1, 2)\<close>: weight \<open>2.0\<close>, enabled, and weight
  \<open>-1.0\<close>, disabled.\<close>

definition connection_scenario :: "nat state" where
  "connection_scenario =
     \<lparr>genes =
        [\<lparr>gclass = DefaultConnectionGene, key = PTuple [PInt 1, PInt 2],
          attrs = [''weight'' \<mapsto> PFloat 2, ''enabled'' \<mapsto> PBool True]\<rparr>,
         \<lparr>gclass = DefaultConnectionGene, key = PTuple [PInt 1, PInt 2],
          attrs = [''weight'' \<mapsto> PFloat (- 1), ''enabled'' \<mapsto> PBool False]\<rparr>],
      objs = []\<rparr>"


text \<open>Two node genes with key \<open>7\<close> whose activation values are objects with a
  \<^verbatim>\<open>copy\<close> and a \<^verbatim>\<open>distance\<close> operation and internal states \<open>3\<close> and \<open>5\<close>.\<close>

definition instance_scenario :: "nat state" where
  "instance_scenario =
     \<lparr>genes =
        [\<lparr>gclass = DefaultNodeGene, key = PInt 7,
          attrs = [''bias'' \<mapsto> PFloat 1, ''response'' \<mapsto> PInt 2,
                   ''activation'' \<mapsto> PRef 0, ''aggregation'' \<mapsto> PStr ''sum'']\<rparr>,
         \<lparr>gclass = DefaultNodeGene, key = PInt 7,
          attrs = [''bias'' \<mapsto> PFloat (- 1), ''response'' \<mapsto> PFloat 0,
                   ''activation'' \<mapsto> PRef 1, ''aggregation'' \<mapsto> PStr ''max'']\<rparr>],
      objs = [\<lparr>has_copy = True, has_distance = True, internal = 3\<rparr>,
              \<lparr>has_copy = True, has_distance = True, internal = 5\<rparr>]\<rparr>"

text \<open>Node genes with keys \<open>3\<close> and \<open>5\<close> and a connection gene with key \<open>(1, 2)\<close>,
  as constructed.\<close>

definition ordering_scenario :: "nat state" where
  "ordering_scenario =
     \<lparr>genes =
        [\<lparr>gclass = DefaultNodeGene, key = PInt 3, attrs = Map.empty\<rparr>,
         \<lparr>gclass = DefaultNodeGene, key = PInt 5, attrs = Map.empty\<rparr>,
         \<lparr>gclass = DefaultConnectionGene, key = PTuple [PInt 1, PInt 2], attrs = Map.empty\<rparr>],
      objs = []\<rparr>"


text \<open>A node gene and an identical clone of it: the same key and attribute values,
  the activation values two objects with the same internal state.\<close>

definition clone_scenario :: "nat state" where
  "clone_scenario =
     \<lparr>genes =
        [\<lparr>gclass = DefaultNodeGene, key = PInt 7,
          attrs = [''bias'' \<mapsto> PFloat 1, ''response'' \<mapsto> PInt 2,
                   ''activation'' \<mapsto> PRef 0, ''aggregation'' \<mapsto> PStr ''sum'']\<rparr>,
         \<lparr>gclass = DefaultNodeGene, key = PInt 7,
          attrs = [''bias'' \<mapsto> PFloat 1, ''response'' \<mapsto> PInt 2,
                   ''activation'' \<mapsto> PRef 1, ''aggregation'' \<mapsto> PStr ''sum'']\<rparr>],
      objs = [\<lparr>has_copy = True, has_distance = True, internal = 3\<rparr>,
              \<lparr>has_copy = True, has_distance = True, internal = 3\<rparr>]\<rparr>"





section \<open>Basic facts\<close>





lemma new_gene_error:
  "new_gene c k s = Inl e \<Longrightarrow>
     e = AssertionError NodeKeyNotInt \<or> e = AssertionError ConnectionKeyNotTuple"
  by (cases c) (auto split: if_splits)

section \<open>Construction checks the type of the key\<close>

text \<open>
  Claim C1, as amended. Constructing a node gene with a key that is not an \<^verbatim>\<open>int\<close>
  fails with the assertion of \<^verbatim>\<open>DefaultNodeGene.__init__\<close>, and constructing a
  connection gene with a key that is not a \<^verbatim>\<open>tuple\<close> fails with the assertion of
  \<^verbatim>\<open>DefaultConnectionGene.__init__\<close>. With an \<^verbatim>\<open>int\<close> key, respectively with any
  \<^verbatim>\<open>tuple\<close> key, construction succeeds: it returns a new gene object that holds the
  key and no attribute value, and changes no other object. The connection gene
  constructor looks at neither the length nor the components of the tuple.
\<close>

theorem construct_checks_key_type:
  "(\<not> isinstance k TInt \<longrightarrow> new_gene DefaultNodeGene k s = Inl (AssertionError NodeKeyNotInt)) \<and>
   (\<not> isinstance k TTuple \<longrightarrow>
      new_gene DefaultConnectionGene k s = Inl (AssertionError ConnectionKeyNotTuple)) \<and>
   ((c = DefaultNodeGene \<and> isinstance k TInt) \<or> (c = DefaultConnectionGene \<and> isinstance k TTuple) \<longrightarrow>
      (\<exists>s'. new_gene c k s = Inr (length (genes s), s') \<and>
            length (genes s') = Suc (length (genes s)) \<and>
            genes s' ! length (genes s) = \<lparr>gclass = c, key = k, attrs = Map.empty\<rparr> \<and>
            (\<forall>i < length (genes s). genes s' ! i = genes s ! i) \<and> objs s' = objs s))"
  by (auto simp: BaseGene_init_def nth_append)

theorem construct_checks_key_type_witness:
  "new_gene DefaultNodeGene (PStr ''n1'') empty_state = Inl (AssertionError NodeKeyNotInt) \<and>
   new_gene DefaultConnectionGene (PInt 3) empty_state = Inl (AssertionError ConnectionKeyNotTuple) \<and>
   (\<exists>s'. new_gene DefaultConnectionGene (PTuple [PInt 1, PInt 2]) empty_state = Inr (0, s') \<and>
      genes s' ! 0 = \<lparr>gclass = DefaultConnectionGene, key = PTuple [PInt 1, PInt 2], attrs = Map.empty\<rparr>)"
  using construct_checks_key_type [of "PStr ''n1''" empty_state DefaultNodeGene]
    construct_checks_key_type [of "PInt 3" empty_state DefaultNodeGene]
    construct_checks_key_type [of "PTuple [PInt 1, PInt 2]" empty_state DefaultConnectionGene]
  by (auto simp: isinstance_def empty_state_def)

text \<open>The claim as it was stated fails: a tuple of three integers is not a pair of
  integers, and a connection gene is constructed with it.\<close>

theorem construct_triple_counterexample:
  "\<not> pair_of_ints (PTuple [PInt 1, PInt 2, PInt 3]) \<and>
   new_gene DefaultConnectionGene (PTuple [PInt 1, PInt 2, PInt 3]) empty_state =
     Inr (0, \<lparr>genes = [\<lparr>gclass = DefaultConnectionGene, key = PTuple [PInt 1, PInt 2, PInt 3],
                         attrs = Map.empty\<rparr>],
              objs = []\<rparr>)"
  by (simp add: isinstance_def empty_state_def BaseGene_init_def)

section \<open>Ordering by key\<close>




section \<open>Crossover checks the keys\<close>

lemma crossover_loop_error:
  "crossover_loop as a b ng r s = Inl e \<Longrightarrow> \<exists>n. e = AttributeError n"
  by (induction as arbitrary: r s)
     (auto simp: random_def getattr_def split: if_splits sum.splits option.splits)

text \<open>
  Claim C2. \<^verbatim>\<open>crossover\<close> fails with the key assertion whenever the keys of the two
  genes are unequal (\<^verbatim>\<open>!=\<close>), and when they are equal it does not fail with that
  assertion, whatever else happens in the call.
\<close>

theorem crossover_key_check:
  "(\<not> py_eq (key (genes s ! a)) (key (genes s ! b)) \<longrightarrow>
      crossover s r a b = Inl (AssertionError KeysDiffer)) \<and>
   (py_eq (key (genes s ! a)) (key (genes s ! b)) \<longrightarrow>
      crossover s r a b \<noteq> Inl (AssertionError KeysDiffer))"
  by (auto simp: crossover_def split: sum.splits dest: new_gene_error crossover_loop_error)

theorem crossover_key_check_witness:
  "crossover ordering_scenario (\<lambda>n. 0.7) 0 1 = Inl (AssertionError KeysDiffer) \<and>
   crossover connection_scenario (\<lambda>n. 0.7) 0 1 \<noteq> Inl (AssertionError KeysDiffer)"
  using crossover_key_check [of ordering_scenario 0 1 "\<lambda>n. 0.7"]
    crossover_key_check [of connection_scenario 0 1 "\<lambda>n. 0.7"]
  by (simp add: ordering_scenario_def connection_scenario_def)

section \<open>The distance formulas and their laws\<close>

















section \<open>The store under copy and crossover\<close>



lemma genes_assign_copy:
  "genes (assign_copy s ng n v) =
     (genes s)[ng := (genes s ! ng)\<lparr>attrs := (attrs (genes s ! ng))(n \<mapsto> stored_value s v)\<rparr>]"
  by (cases v) (auto simp: assign_copy_def stored_value_def setattr_def)

lemma objs_assign_copy:
  "\<exists>zs. objs (assign_copy s ng n v) = objs s @ zs"
  by (cases v) (auto simp: assign_copy_def setattr_def)

lemma objs_assign_copy_plain:
  "\<not> hasattr_copy s v \<Longrightarrow> objs (assign_copy s ng n v) = objs s"
  by (simp add: assign_copy_def setattr_def)

lemma objs_assign_copy_clone:
  "hasattr_copy s (PRef r) \<Longrightarrow> objs (assign_copy s ng n (PRef r)) = objs s @ [objs s ! r]"
  by (simp add: assign_copy_def setattr_def)

lemma snapshot_stored_value:
  assumes "live s v"
  shows "snapshot_of (assign_copy s ng n v) (stored_value s v) = snapshot_of s v"
proof (cases "hasattr_copy s v")
  case True
  then obtain r where v: "v = PRef r" by (cases v) auto
  with True show ?thesis
    by (simp add: objs_assign_copy_clone stored_value_def)
next
  case False
  with assms show ?thesis
    by (cases v) (simp_all add: objs_assign_copy_plain stored_value_def)
qed

lemma live_stored_value: "live s v \<Longrightarrow> live (assign_copy s ng n v) (stored_value s v)"
  by (cases v) (auto simp: assign_copy_def setattr_def stored_value_def)

lemma live_append: "live s v \<Longrightarrow> objs s' = objs s @ zs \<Longrightarrow> live s' v"
  by (cases v) auto

lemma snapshot_append: "live s v \<Longrightarrow> objs s' = objs s @ zs \<Longrightarrow> snapshot_of s' v = snapshot_of s v"
  by (cases v) (auto simp: nth_append)

lemma hasattr_copy_append:
  "live s v \<Longrightarrow> objs s' = objs s @ zs \<Longrightarrow> hasattr_copy s' v = hasattr_copy s v"
  by (cases v) (auto simp: nth_append)

lemma crossover_loop_step:
  "crossover_loop (x # as) a b ng r s =
     (case getattr s (if r 0 > 0.5 then a else b) (name x) of
        Inl e \<Rightarrow> Inl e
      | Inr v \<Rightarrow> crossover_loop as a b ng (\<lambda>n. r (Suc n)) (assign_copy s ng (name x) v))"
  by (simp add: random_def)


lemma inherited_step: "live s w \<Longrightarrow> inherited s (assign_copy s ng n w) w (stored_value s w)"
  unfolding inherited_def
  using live_stored_value [of s w ng n] snapshot_stored_value [of s w ng n]
  by (auto simp: stored_value_def)

lemma inherited_later:
  assumes "inherited s s1 w v'" and "objs s' = objs s1 @ zs"
  shows "inherited s s' w v'"
  using assms live_append [of s1 v' s' zs] snapshot_append [of s1 v' s' zs]
  by (auto simp: inherited_def)

lemma inherited_earlier:
  assumes "live s w" and "objs s1 = objs s @ zs" and "inherited s1 s' w v'"
  shows "inherited s s' w v'"
  using assms snapshot_append [of s w s1 zs] hasattr_copy_append [of s w s1 zs]
  by (auto simp: inherited_def split: pyval.splits if_splits)

lemma genes_assign_copy_other:
  "i \<noteq> ng \<Longrightarrow> genes (assign_copy s ng n v) ! i = genes s ! i"
  by (simp add: genes_assign_copy)

lemma length_genes_assign_copy: "length (genes (assign_copy s ng n v)) = length (genes s)"
  by (simp add: genes_assign_copy)

lemma gene_assign_copy_self:
  "gclass (genes (assign_copy s ng n v) ! ng) = gclass (genes s ! ng) \<and>
   key (genes (assign_copy s ng n v) ! ng) = key (genes s ! ng)"
  by (cases "ng < length (genes s)") (simp_all add: genes_assign_copy list_update_beyond)

lemma attrs_assign_copy_self:
  "ng < length (genes s) \<Longrightarrow>
     attrs (genes (assign_copy s ng n v) ! ng) = (attrs (genes s ! ng))(n \<mapsto> stored_value s v)"
  by (simp add: genes_assign_copy)

lemma crossover_loop_frame:
  "crossover_loop as a b ng r s = Inr (r', s') \<Longrightarrow>
     length (genes s') = length (genes s) \<and> (\<forall>i. i \<noteq> ng \<longrightarrow> genes s' ! i = genes s ! i) \<and>
     (\<exists>zs. objs s' = objs s @ zs) \<and>
     gclass (genes s' ! ng) = gclass (genes s ! ng) \<and> key (genes s' ! ng) = key (genes s ! ng)"
proof (induction as arbitrary: r s)
  case Nil
  then show ?case by simp
next
  case (Cons x as)
  from Cons.prems obtain v where
    loop: "crossover_loop as a b ng (\<lambda>n. r (Suc n)) (assign_copy s ng (name x) v) = Inr (r', s')"
    by (auto simp: crossover_loop_step simp del: crossover_loop.simps split: sum.splits)
  from Cons.IH [OF loop] objs_assign_copy [of s ng "name x" v] show ?case
    by (auto simp: length_genes_assign_copy genes_assign_copy_other gene_assign_copy_self)
qed

lemma crossover_loop_total:
  "\<forall>x \<in> set as. has_attr s a (name x) \<and> has_attr s b (name x) \<Longrightarrow> a \<noteq> ng \<Longrightarrow> b \<noteq> ng \<Longrightarrow>
     \<exists>r' s'. crossover_loop as a b ng r s = Inr (r', s')"
proof (induction as arbitrary: r s)
  case Nil
  then show ?case by simp
next
  case (Cons x as)
  let ?src = "if r 0 > 0.5 then a else b"
  from Cons.prems have "has_attr s ?src (name x)" by simp
  then obtain v where v: "getattr s ?src (name x) = Inr v"
    unfolding has_attr_def getattr_def by (cases "attrs (genes s ! ?src) (name x)") auto
  let ?s1 = "assign_copy s ng (name x) v"
  have "\<forall>y \<in> set as. has_attr ?s1 a (name y) \<and> has_attr ?s1 b (name y)"
    using Cons.prems by (simp add: has_attr_def genes_assign_copy_other)
  from Cons.IH [OF this Cons.prems(2,3)] v show ?case
    by (simp add: crossover_loop_step del: crossover_loop.simps)
qed

lemma crossover_loop_untouched:
  "crossover_loop as a b ng r s = Inr (r', s') \<Longrightarrow> m \<notin> name ` set as \<Longrightarrow>
     attrs (genes s' ! ng) m = attrs (genes s ! ng) m"
proof (induction as arbitrary: r s)
  case Nil
  then show ?case by simp
next
  case (Cons x as)
  from Cons.prems obtain v where
    loop: "crossover_loop as a b ng (\<lambda>n. r (Suc n)) (assign_copy s ng (name x) v) = Inr (r', s')"
    by (auto simp: crossover_loop_step simp del: crossover_loop.simps split: sum.splits)
  from Cons.prems have m: "m \<noteq> name x" "m \<notin> name ` set as" by auto
  have "attrs (genes (assign_copy s ng (name x) v) ! ng) m = attrs (genes s ! ng) m"
    using m(1) by (cases "ng < length (genes s)") (simp_all add: genes_assign_copy list_update_beyond)
  with Cons.IH [OF loop m(2)] show ?case by simp
qed

lemma crossover_loop_assigned:
  assumes "crossover_loop as a b ng r s = Inr (r', s')"
    and "ng < length (genes s)" and "a \<noteq> ng" and "b \<noteq> ng"
    and "\<forall>x \<in> set as. \<forall>w. attrs (genes s ! a) (name x) = Some w \<or>
           attrs (genes s ! b) (name x) = Some w \<longrightarrow> live s w"
  shows "\<forall>x \<in> set as. \<exists>w v'.
           (attrs (genes s ! a) (name x) = Some w \<or> attrs (genes s ! b) (name x) = Some w) \<and>
           attrs (genes s' ! ng) (name x) = Some v' \<and> inherited s s' w v'"
  using assms
proof (induction as arbitrary: r s)
  case Nil
  then show ?case by simp
next
  case (Cons x as)
  let ?src = "if r 0 > 0.5 then a else b"
  from Cons.prems(1) obtain w where w: "getattr s ?src (name x) = Inr w"
    and loop: "crossover_loop as a b ng (\<lambda>n. r (Suc n)) (assign_copy s ng (name x) w) = Inr (r', s')"
    by (auto simp: crossover_loop_step simp del: crossover_loop.simps split: sum.splits)
  let ?s1 = "assign_copy s ng (name x) w"
  from w have wsrc: "attrs (genes s ! ?src) (name x) = Some w"
    by (auto simp: getattr_def split: option.splits)
  then have wab: "attrs (genes s ! a) (name x) = Some w \<or> attrs (genes s ! b) (name x) = Some w"
    by (cases "r 0 > 0.5") simp_all
  with Cons.prems(5) have livew: "live s w" by auto
  obtain zs where zs: "objs ?s1 = objs s @ zs"
    using objs_assign_copy [of s ng "name x" w] by blast
  obtain zs' where zs': "objs s' = objs ?s1 @ zs'"
    using crossover_loop_frame [OF loop] by blast
  have ga: "genes ?s1 ! a = genes s ! a" and gb: "genes ?s1 ! b = genes s ! b"
    using Cons.prems(3,4) by (simp_all add: genes_assign_copy_other)
  have len1: "ng < length (genes ?s1)"
    using Cons.prems(2) by (simp add: length_genes_assign_copy)
  have live1: "\<forall>y \<in> set as. \<forall>u. attrs (genes ?s1 ! a) (name y) = Some u \<or>
           attrs (genes ?s1 ! b) (name y) = Some u \<longrightarrow> live ?s1 u"
    using Cons.prems(5) zs by (auto simp: ga gb intro: live_append)
  note IH = Cons.IH [OF loop len1 Cons.prems(3,4) live1]
  have rest: "\<exists>u v'. (attrs (genes s ! a) (name y) = Some u \<or> attrs (genes s ! b) (name y) = Some u) \<and>
           attrs (genes s' ! ng) (name y) = Some v' \<and> inherited s s' u v'" if y: "y \<in> set as" for y
  proof -
    from IH y obtain u v' where
      u: "attrs (genes s ! a) (name y) = Some u \<or> attrs (genes s ! b) (name y) = Some u"
      and v': "attrs (genes s' ! ng) (name y) = Some v'" and inh: "inherited ?s1 s' u v'"
      unfolding ga gb by blast
    from u y Cons.prems(5) have "live s u" by auto
    from inherited_earlier [OF this zs inh] u v' show ?thesis by blast
  qed
  have head: "\<exists>u v'. (attrs (genes s ! a) (name x) = Some u \<or> attrs (genes s ! b) (name x) = Some u) \<and>
           attrs (genes s' ! ng) (name x) = Some v' \<and> inherited s s' u v'"
  proof (cases "name x \<in> name ` set as")
    case True
    then obtain y where "y \<in> set as" and "name y = name x" by auto
    with rest [of y] show ?thesis by simp
  next
    case False
    from crossover_loop_untouched [OF loop False]
    have "attrs (genes s' ! ng) (name x) = Some (stored_value s w)"
      using Cons.prems(2) by (simp add: attrs_assign_copy_self)
    moreover have "inherited s s' w (stored_value s w)"
      using inherited_later [OF inherited_step [OF livew] zs'] .
    ultimately show ?thesis using wab by blast
  qed
  show ?case using head rest by simp
qed

lemma attributes_setD:
  assumes "attributes_set s g" and "x \<in> set (gene_attributes (gclass (genes s ! g)))"
  shows "\<exists>v. attrs (genes s ! g) (name x) = Some v \<and> live s v"
  using assms by (auto simp: attributes_set_def list_all_iff split: option.splits)

lemma attributes_set_length: "attributes_set s g \<Longrightarrow> g < length (genes s)"
  by (simp add: attributes_set_def)

lemma new_gene_same_class:
  "key_valid g \<Longrightarrow>
     new_gene (gclass g) (key g) s =
       Inr (length (genes s),
            s\<lparr>genes := genes s @ [\<lparr>gclass = gclass g, key = key g, attrs = Map.empty\<rparr>]\<rparr>)"
  by (cases "gclass g") (auto simp: BaseGene_init_def key_valid_def)

lemma crossover_unfold:
  assumes "key_valid (genes s ! a)" and "py_eq (key (genes s ! a)) (key (genes s ! b))"
  shows "crossover s r a b =
     (case crossover_loop (gene_attributes (gclass (genes s ! a))) a b (length (genes s)) r
             (s\<lparr>genes := genes s @ [\<lparr>gclass = gclass (genes s ! a), key = key (genes s ! a),
                                     attrs = Map.empty\<rparr>]\<rparr>) of
        Inl e \<Rightarrow> Inl e
      | Inr (r', s2) \<Rightarrow> Inr (length (genes s), r', s2))"
  using assms by (simp add: crossover_def new_gene_same_class)


text \<open>What a successful run of the attribute loop on a freshly constructed gene gives.\<close>

lemma inherit_loop:
  fixes s :: "'s state" and a :: addr
  defines "s1 \<equiv> s\<lparr>genes := genes s @ [\<lparr>gclass = gclass (genes s ! a), key = key (genes s ! a),
                                     attrs = Map.empty\<rparr>]\<rparr>"
  assumes a: "attributes_set s a" and b: "attributes_set s b"
    and cls: "gclass (genes s ! b) = gclass (genes s ! a)"
  shows "\<exists>r' s'. crossover_loop (gene_attributes (gclass (genes s ! a))) a b (length (genes s)) r s1
                   = Inr (r', s') \<and>
           length (genes s') = Suc (length (genes s)) \<and>
           (\<forall>i < length (genes s). genes s' ! i = genes s ! i) \<and>
           (\<exists>zs. objs s' = objs s @ zs) \<and>
           gclass (genes s' ! length (genes s)) = gclass (genes s ! a) \<and>
           key (genes s' ! length (genes s)) = key (genes s ! a) \<and>
           (\<forall>x \<in> set (gene_attributes (gclass (genes s ! a))). \<exists>w v'.
              (attrs (genes s ! a) (name x) = Some w \<or> attrs (genes s ! b) (name x) = Some w) \<and>
              attrs (genes s' ! length (genes s)) (name x) = Some v' \<and> inherited s s' w v')"
proof -
  let ?as = "gene_attributes (gclass (genes s ! a))"
  let ?ng = "length (genes s)"
  have la: "a < ?ng" and lb: "b < ?ng"
    using a b by (simp_all add: attributes_set_length)
  have ga: "genes s1 ! a = genes s ! a" and gb: "genes s1 ! b = genes s ! b"
    using la lb by (simp_all add: s1_def nth_append)
  have o1: "objs s1 = objs s" by (simp add: s1_def)
  have da: "\<exists>v. attrs (genes s ! a) (name x) = Some v \<and> live s v" if "x \<in> set ?as" for x
    using attributes_setD [OF a that] .
  have db: "\<exists>v. attrs (genes s ! b) (name x) = Some v \<and> live s v" if "x \<in> set ?as" for x
    using attributes_setD [OF b, of x] that by (simp add: cls)
  have set_ab: "\<forall>x \<in> set ?as. has_attr s1 a (name x) \<and> has_attr s1 b (name x)"
    using da db by (fastforce simp: has_attr_def ga gb)
  from crossover_loop_total [OF set_ab, of ?ng r] la lb
  obtain r' s' where loop: "crossover_loop ?as a b ?ng r s1 = Inr (r', s')" by auto
  have live1: "\<forall>x \<in> set ?as. \<forall>w. attrs (genes s1 ! a) (name x) = Some w \<or>
           attrs (genes s1 ! b) (name x) = Some w \<longrightarrow> live s1 w"
  proof (intro ballI allI impI)
    fix x w
    assume x: "x \<in> set ?as"
      and w: "attrs (genes s1 ! a) (name x) = Some w \<or> attrs (genes s1 ! b) (name x) = Some w"
    from da [OF x] db [OF x] w
    have "live s w" by (auto simp: ga gb)
    then show "live s1 w" by (cases w) (simp_all add: o1)
  qed
  have ng1: "?ng < length (genes s1)" by (simp add: s1_def)
  from la lb have ne: "a \<noteq> ?ng" "b \<noteq> ?ng" by simp_all
  note frame = crossover_loop_frame [OF loop]
  note assigned = crossover_loop_assigned [OF loop ng1 ne live1]
  have inh: "inherited s s' w v'" if "inherited s1 s' w v'" for w v'
    using that o1 by (cases w; cases v'; auto simp: inherited_def split: if_splits)
  have "\<forall>x \<in> set ?as. \<exists>w v'.
              (attrs (genes s ! a) (name x) = Some w \<or> attrs (genes s ! b) (name x) = Some w) \<and>
              attrs (genes s' ! ?ng) (name x) = Some v' \<and> inherited s s' w v'"
    using assigned inh unfolding ga gb by blast
  moreover have "length (genes s') = Suc ?ng" using frame by (simp add: s1_def)
  moreover have "\<forall>i < ?ng. genes s' ! i = genes s ! i"
    using frame by (simp add: s1_def nth_append)
  moreover have "\<exists>zs. objs s' = objs s @ zs" using frame by (simp add: o1)
  moreover have "gclass (genes s' ! ?ng) = gclass (genes s ! a)"
      "key (genes s' ! ?ng) = key (genes s ! a)"
    using frame by (simp_all add: s1_def)
  ultimately show ?thesis using loop by blast
qed

lemma view_inherited:
  "attrs (genes s ! g) n = Some w \<Longrightarrow> attrs (genes s' ! c) n = Some v' \<Longrightarrow>
     inherited s s' w v' \<Longrightarrow> view s' c n = view s g n"
  by (simp add: view_def inherited_def)

lemma view_kept:
  assumes "attrs (genes s ! g) n = Some w" and "live s w"
    and "genes s' ! g = genes s ! g" and "objs s' = objs s @ zs"
  shows "view s' g n = view s g n"
  using assms snapshot_append [of s w s' zs] by (simp add: view_def)

section \<open>Crossover of a gene with an identical clone\<close>

text \<open>
  Claim C3. Let every declared attribute of a gene and of an identical clone of it be
  set: the clone is of the same class, has an equal key and, per declared attribute, a
  value that looks the same. Then for every outcome of the random draws \<^verbatim>\<open>crossover\<close>
  succeeds and returns a new gene of that class with the same key, whose value for every
  declared attribute looks the same as the value the two parents share.
\<close>

theorem crossover_identical:
  assumes "attributes_set s a" and "attributes_set s b"
    and "gclass (genes s ! b) = gclass (genes s ! a)"
    and "key_valid (genes s ! a)"
    and "py_eq (key (genes s ! a)) (key (genes s ! b))"
    and "\<forall>x \<in> set (gene_attributes (gclass (genes s ! a))). view s b (name x) = view s a (name x)"
  shows "\<exists>r' s'. crossover s r a b = Inr (length (genes s), r', s') \<and>
           length (genes s') = Suc (length (genes s)) \<and>
           gclass (genes s' ! length (genes s)) = gclass (genes s ! a) \<and>
           key (genes s' ! length (genes s)) = key (genes s ! a) \<and>
           (\<forall>x \<in> set (gene_attributes (gclass (genes s ! a))).
              view s' (length (genes s)) (name x) = view s a (name x) \<and>
              view s' (length (genes s)) (name x) = view s b (name x))"
proof -
  let ?as = "gene_attributes (gclass (genes s ! a))"
  let ?ng = "length (genes s)"
  from inherit_loop [OF assms(1,2,3), of r] obtain r' s' where
    loop: "crossover_loop ?as a b ?ng r
             (s\<lparr>genes := genes s @ [\<lparr>gclass = gclass (genes s ! a), key = key (genes s ! a),
                                     attrs = Map.empty\<rparr>]\<rparr>) = Inr (r', s')"
    and len: "length (genes s') = Suc ?ng"
    and cls: "gclass (genes s' ! ?ng) = gclass (genes s ! a)"
    and key: "key (genes s' ! ?ng) = key (genes s ! a)"
    and inh: "\<forall>x \<in> set ?as. \<exists>w v'.
              (attrs (genes s ! a) (name x) = Some w \<or> attrs (genes s ! b) (name x) = Some w) \<and>
              attrs (genes s' ! ?ng) (name x) = Some v' \<and> inherited s s' w v'"
    by blast
  have res: "crossover s r a b = Inr (?ng, r', s')"
    by (simp add: crossover_unfold [OF assms(4,5)] loop)
  have "view s' ?ng (name x) = view s a (name x)" if x: "x \<in> set ?as" for x
  proof -
    from inh x obtain w v' where
      w: "attrs (genes s ! a) (name x) = Some w \<or> attrs (genes s ! b) (name x) = Some w"
      and v': "attrs (genes s' ! ?ng) (name x) = Some v'" and i: "inherited s s' w v'"
      by blast
    from w show ?thesis
    proof
      assume "attrs (genes s ! a) (name x) = Some w"
      from view_inherited [OF this v' i] show ?thesis .
    next
      assume "attrs (genes s ! b) (name x) = Some w"
      from view_inherited [OF this v' i] assms(6) x show ?thesis by simp
    qed
  qed
  with assms(6) res len cls key show ?thesis by simp
qed

theorem crossover_identical_witness:
  "\<exists>r' s'. crossover clone_scenario (\<lambda>n. if even n then 0.9 else 0.1) 0 1 = Inr (2, r', s') \<and>
     key (genes s' ! 2) = PInt 7 \<and>
     view s' 2 ''bias'' = Some (Plain (PFloat 1)) \<and>
     view s' 2 ''response'' = Some (Plain (PInt 2)) \<and>
     view s' 2 ''activation'' = Some (Instance \<lparr>has_copy = True, has_distance = True, internal = 3\<rparr>) \<and>
     view s' 2 ''aggregation'' = Some (Plain (PStr ''sum''))"
  using crossover_identical [of clone_scenario 0 1 "\<lambda>n. if even n then 0.9 else 0.1"]
  by (simp add: clone_scenario_def attributes_set_def key_valid_def isinstance_def view_def
      numeral_2_eq_2) blast

section \<open>Crossover leaves the parents unchanged\<close>

text \<open>
  Claim C10. Let every declared attribute of two genes of the same class with equal
  keys be set. Then for every outcome of the random draws \<^verbatim>\<open>crossover\<close> succeeds and
  leaves both parents as they were: the gene objects (key and attribute values) are
  unchanged, no object allocated before the call is changed, and every declared attribute
  of either parent looks the same after the call as before it.
\<close>

theorem crossover_parents_unchanged:
  assumes "attributes_set s a" and "attributes_set s b"
    and "gclass (genes s ! b) = gclass (genes s ! a)"
    and "key_valid (genes s ! a)"
    and "py_eq (key (genes s ! a)) (key (genes s ! b))"
  shows "\<exists>r' s'. crossover s r a b = Inr (length (genes s), r', s') \<and>
           genes s' ! a = genes s ! a \<and> genes s' ! b = genes s ! b \<and>
           (\<forall>i < length (objs s). objs s' ! i = objs s ! i) \<and>
           (\<forall>x \<in> set (gene_attributes (gclass (genes s ! a))).
              view s' a (name x) = view s a (name x) \<and> view s' b (name x) = view s b (name x))"
proof -
  let ?as = "gene_attributes (gclass (genes s ! a))"
  let ?ng = "length (genes s)"
  from inherit_loop [OF assms(1,2,3), of r] obtain r' s' zs where
    loop: "crossover_loop ?as a b ?ng r
             (s\<lparr>genes := genes s @ [\<lparr>gclass = gclass (genes s ! a), key = key (genes s ! a),
                                     attrs = Map.empty\<rparr>]\<rparr>) = Inr (r', s')"
    and old: "\<forall>i < ?ng. genes s' ! i = genes s ! i"
    and zs: "objs s' = objs s @ zs"
    by blast
  have res: "crossover s r a b = Inr (?ng, r', s')"
    by (simp add: crossover_unfold [OF assms(4,5)] loop)
  have ga: "genes s' ! a = genes s ! a" and gb: "genes s' ! b = genes s ! b"
    using old assms(1,2) by (simp_all add: attributes_set_length)
  have objs: "\<forall>i < length (objs s). objs s' ! i = objs s ! i"
    by (simp add: zs nth_append)
  have "view s' a (name x) = view s a (name x) \<and> view s' b (name x) = view s b (name x)"
    if x: "x \<in> set ?as" for x
  proof -
    from attributes_setD [OF assms(1) x] obtain w where
      w: "attrs (genes s ! a) (name x) = Some w" "live s w" by blast
    from attributes_setD [OF assms(2), of x] x assms(3) obtain u where
      u: "attrs (genes s ! b) (name x) = Some u" "live s u" by auto
    from view_kept [OF w ga zs] view_kept [OF u gb zs] show ?thesis by simp
  qed
  with res ga gb objs show ?thesis by blast
qed

theorem crossover_parents_unchanged_witness:
  "\<exists>r' s'. crossover instance_scenario (\<lambda>n. if even n then 0.9 else 0.1) 0 1 = Inr (2, r', s') \<and>
     genes s' ! 0 = genes instance_scenario ! 0 \<and> genes s' ! 1 = genes instance_scenario ! 1 \<and>
     view s' 0 ''activation'' = Some (Instance \<lparr>has_copy = True, has_distance = True, internal = 3\<rparr>) \<and>
     view s' 1 ''activation'' = Some (Instance \<lparr>has_copy = True, has_distance = True, internal = 5\<rparr>) \<and>
     view s' 0 ''bias'' = Some (Plain (PFloat 1)) \<and>
     view s' 1 ''aggregation'' = Some (Plain (PStr ''max''))"
  using crossover_parents_unchanged [of instance_scenario 0 1 "\<lambda>n. if even n then 0.9 else 0.1"]
  by (simp add: instance_scenario_def attributes_set_def key_valid_def isinstance_def view_def
      numeral_2_eq_2) blast

section \<open>Mutation of a gene\<close>



section \<open>Copy yields an independent gene\<close>






end
